theory Spec2Isabelle
  imports Main "HOL-Library.Char_ord" "HOL-Library.List_Lexorder"
begin

section \<open>Data model of voteForReflectionGroup\<close>

text \<open>
  The resolver of \<^verbatim>\<open>packages/server/graphql/mutations/voteForReflectionGroup.ts\<close> works on
  three tables of the document store: \<^verbatim>\<open>RetroReflectionGroup\<close>, \<^verbatim>\<open>NewMeeting\<close> and
  \<^verbatim>\<open>MeetingMember\<close>. The records below hold the fields the resolver reads or writes. The
  TypeScript declarations of the documents are not part of the source at hand, so every
  field of a meeting that the resolver does not name is kept in the field \<open>rest\<close>.
  A field whose name is also the name of a local variable of the resolver carries the
  name of its record as a prefix.
\<close>

type_synonym ident = string

type_synonym timestamp = nat

record Stage =
  stage_id :: ident
  isComplete :: bool
  isNavigable :: bool
  isNavigableByFacilitator :: bool

record Phase =
  phaseType :: string
  stages :: "Stage list"

record ReflectionGroup =
  isActive :: bool
  group_meetingId :: ident
  voterIds :: "ident list"

record Meeting =
  endedAt :: "timestamp option"
  phases :: "Phase list"
  maxVotesPerGroup :: nat
  teamId :: ident
  rest :: "(string \<times> string) list"

record MeetingMember =
  member_meetingId :: ident
  member_userId :: ident

text \<open>
  A table is a list of documents with their primary keys; \<^verbatim>\<open>.get(id)\<close> is \<^const>\<open>map_of\<close>
  at the key, with \<open>None\<close> for the \<^verbatim>\<open>null\<close> the driver returns for a missing document.
\<close>

record Database =
  RetroReflectionGroup :: "(ident \<times> ReflectionGroup) list"
  NewMeeting :: "(ident \<times> Meeting) list"
  MeetingMemberTable :: "MeetingMember list"

text \<open>
  The third argument of \<^verbatim>\<open>resolve\<close>: the authentication token, the operation id that
  \<^verbatim>\<open>dataLoader.share()\<close> returns, and the socket id, which the resolver calls
  \<^verbatim>\<open>mutatorId\<close>.
\<close>

record 'tok GQLContext =
  authToken :: 'tok
  operationId :: string
  socketId :: string

record SubOptions =
  sub_operationId :: string
  mutatorId :: string

text \<open>The object \<^verbatim>\<open>data\<close> of lines 130 to 135, which is published and returned.\<close>

record VoteData =
  data_meetingId :: ident
  data_userId :: ident
  data_reflectionGroupId :: ident
  unlockedStageIds :: "ident list option"

datatype SubscriptionChannel = MEETING | OtherChannel string

text \<open>
  Destructuring \<^verbatim>\<open>undefined\<close> or \<^verbatim>\<open>null\<close> raises a \<^verbatim>\<open>TypeError\<close>: this is what
  happens at line 55 when the meeting document is missing, at line 108 when no phase has
  the type \<^verbatim>\<open>discuss\<close>, and at line 110 when the discuss phase has no stage.
\<close>

datatype Exception = TypeError

text \<open>
  What a call of the resolver ends with. \<open>StandardError msg userId tags\<close> is the value of
  \<^verbatim>\<open>standardError(new Error(msg), {userId, tags})\<close>, \<open>VotingError e\<close> is the error value
  that \<^verbatim>\<open>safelyCastVote\<close> or \<^verbatim>\<open>safelyWithdrawVote\<close> handed back, \<open>Data d\<close> is the
  success value, and \<open>Threw x\<close> is a rejected promise.
\<close>

datatype 'err ResolveResult =
    StandardError string ident "(string \<times> string) list"
  | VotingError 'err
  | Data VoteData
  | Threw Exception

text \<open>
  The calls the resolver makes on its collaborators, in the order it makes them: the
  identification of the caller, the reads of the document store, the authorization
  check, the vote helpers, the load of the reflection groups for the tally, the update
  of the phases and the publication.
\<close>

datatype Effect =
    GetUserId
  | GetReflectionGroup ident
  | GetMeeting ident
  | IsTeamMember ident
  | GetMeetingMember ident ident
  | SafelyWithdrawVote ident ident ident
  | SafelyCastVote ident ident ident nat
  | LoadReflectionGroups ident
  | UpdateMeetingPhases ident "Phase list"
  | Publish SubscriptionChannel ident string VoteData SubOptions

text \<open>
  The functions the resolver imports from modules that are not part of the source at hand.
  The resolver is modelled for every implementation of them, so they are its first
  parameter. \<^verbatim>\<open>unlockAllStagesForPhase\<close> changes the phases it is given in place and
  returns the ids of the stages: the model returns both. The two vote helpers read and
  write the document store: they take the store and return it with their error value
  (\<open>None\<close> for \<^verbatim>\<open>undefined\<close>). \<^verbatim>\<open>retroReflectionGroupsByMeetingId\<close> is the loader that
  \<^verbatim>\<open>dataLoader.get\<close> returns at line 96.
\<close>

record ('tok, 'err) Helpers =
  getUserId :: "'tok \<Rightarrow> ident"
  isTeamMember :: "'tok \<Rightarrow> ident \<Rightarrow> bool"
  isPhaseComplete :: "string \<Rightarrow> Phase list \<Rightarrow> bool"
  unlockAllStagesForPhase :: "Phase list \<Rightarrow> string \<Rightarrow> bool \<Rightarrow> bool \<Rightarrow> Phase list \<times> ident list"
  safelyCastVote :: "'tok \<Rightarrow> ident \<Rightarrow> ident \<Rightarrow> ident \<Rightarrow> nat \<Rightarrow> Database \<Rightarrow> 'err option \<times> Database"
  safelyWithdrawVote :: "'tok \<Rightarrow> ident \<Rightarrow> ident \<Rightarrow> ident \<Rightarrow> Database \<Rightarrow> 'err option \<times> Database"
  retroReflectionGroupsByMeetingId :: "Database \<Rightarrow> ident \<Rightarrow> ReflectionGroup list"

text \<open>
  Modelled from the spec: the constant \<^verbatim>\<open>VOTE\<close> of \<^verbatim>\<open>parabol-client/utils/constants\<close> is
  not part of the source at hand; the glossary of the specification names the phase
  \<^verbatim>\<open>vote\<close>. The constant is only ever handed to \<^verbatim>\<open>isPhaseComplete\<close>.
\<close>

definition VOTE :: string where
  "VOTE = ''vote''"

definition JSON_stringify :: "bool \<Rightarrow> string" where
  "JSON_stringify b = (if b then ''true'' else ''false'')"

section \<open>The resolver\<close>

subsection \<open>Vote tallying\<close>

text \<open>
  Lines 98 to 101:
  \<^verbatim>\<open>reflectionGroups.reduce((sum, group) => sum + group.voterIds.length, 0)\<close>.
  \<^verbatim>\<open>reduce\<close> with an initial value is a left fold.
\<close>

definition voteCount :: "ReflectionGroup list \<Rightarrow> nat" where
  "voteCount reflectionGroups =
     foldl (\<lambda>sum group. sum + length (voterIds group)) 0 reflectionGroups"

subsection \<open>Reads and writes of the document store\<close>

text \<open>
  Lines 65 to 71: the members of the meeting, filtered by the user, the first of them or
  \<^verbatim>\<open>null\<close>.
\<close>

definition getMeetingMember :: "Database \<Rightarrow> ident \<Rightarrow> ident \<Rightarrow> MeetingMember option" where
  "getMeetingMember db meetingId viewerId =
     (case filter (\<lambda>m. member_userId m = viewerId)
             (filter (\<lambda>m. member_meetingId m = meetingId) (MeetingMemberTable db)) of
        [] \<Rightarrow> None
      | m # _ \<Rightarrow> Some m)"

text \<open>
  Lines 121 to 127: \<^verbatim>\<open>r.table('NewMeeting').get(meetingId).update({phases})\<close>. The update
  merges the object it is given into the document with that key, and does nothing when
  there is no such document.
\<close>

definition updatePhases :: "ident \<Rightarrow> Phase list \<Rightarrow> Database \<Rightarrow> Database" where
  "updatePhases meetingId newPhases db =
     db\<lparr>NewMeeting :=
          map (\<lambda>(k, m). if k = meetingId then (k, m\<lparr>phases := newPhases\<rparr>) else (k, m))
            (NewMeeting db)\<rparr>"

subsection \<open>Resolution, lines 76 to 143\<close>

definition castOrWithdraw ::
  "('tok, 'err) Helpers \<Rightarrow> bool \<Rightarrow> 'tok \<Rightarrow> ident \<Rightarrow> ident \<Rightarrow> ident \<Rightarrow> nat \<Rightarrow> Database
     \<Rightarrow> 'err option \<times> Database" where
  "castOrWithdraw h isUnvote tok meetingId viewerId reflectionGroupId maxVotes db =
     (if isUnvote then safelyWithdrawVote h tok meetingId viewerId reflectionGroupId db
      else safelyCastVote h tok meetingId viewerId reflectionGroupId maxVotes db)"

definition voteEffect :: "bool \<Rightarrow> ident \<Rightarrow> ident \<Rightarrow> ident \<Rightarrow> nat \<Rightarrow> Effect" where
  "voteEffect isUnvote meetingId viewerId reflectionGroupId maxVotes =
     (if isUnvote then SafelyWithdrawVote meetingId viewerId reflectionGroupId
      else SafelyCastVote meetingId viewerId reflectionGroupId maxVotes)"

text \<open>
  Lines 103 to 118: the value of \<^verbatim>\<open>isUnlock\<close>, with \<open>None\<close> for \<^verbatim>\<open>undefined\<close>.
\<close>

definition isUnlockFor :: "bool \<Rightarrow> Phase list \<Rightarrow> nat \<Rightarrow> Exception + bool option" where
  "isUnlockFor isUnvote phs cnt =
     (if \<not> isUnvote then
        (case List.find (\<lambda>phase. phaseType phase = ''discuss'') phs of
           None \<Rightarrow> Inl TypeError
         | Some discussPhase \<Rightarrow>
             (case stages discussPhase of
                [] \<Rightarrow> Inl TypeError
              | firstStage # _ \<Rightarrow>
                  if \<not> isNavigableByFacilitator firstStage then Inr (Some True) else Inr None))
      else if cnt = 0 then Inr (Some False)
      else Inr None)"

text \<open>
  The part of \<^verbatim>\<open>resolve\<close> after the validation. It is given the values that the
  validation has bound: \<^verbatim>\<open>viewerId\<close>, \<^verbatim>\<open>meetingId\<close> and the meeting document read at
  line 51, whose \<^verbatim>\<open>phases\<close> and \<^verbatim>\<open>maxVotesPerGroup\<close> it uses. It returns the result,
  the document store and the calls it made. The phases that are written at line 124 are
  those of the meeting document read at line 51, as \<^verbatim>\<open>unlockAllStagesForPhase\<close> left them.
\<close>

definition resolution ::
  "('tok, 'err) Helpers \<Rightarrow> bool \<Rightarrow> ident \<Rightarrow> 'tok GQLContext \<Rightarrow> ident \<Rightarrow> ident \<Rightarrow> Meeting
     \<Rightarrow> Database \<Rightarrow> 'err ResolveResult \<times> Database \<times> Effect list" where
  "resolution h isUnvote reflectionGroupId ctx viewerId meetingId meeting db =
     (let (votingError, db1) =
            castOrWithdraw h isUnvote (authToken ctx) meetingId viewerId reflectionGroupId
              (maxVotesPerGroup meeting) db;
          e1 = [voteEffect isUnvote meetingId viewerId reflectionGroupId (maxVotesPerGroup meeting)]
      in case votingError of
           Some err \<Rightarrow> (VotingError err, db1, e1)
         | None \<Rightarrow>
             (let reflectionGroups = retroReflectionGroupsByMeetingId h db1 meetingId;
                 cnt = voteCount reflectionGroups;
                 e2 = e1 @ [LoadReflectionGroups meetingId]
             in case isUnlockFor isUnvote (phases meeting) cnt of
                  Inl exn \<Rightarrow> (Threw exn, db1, e2)
                | Inr None \<Rightarrow>
                    let data = \<lparr>data_meetingId = meetingId, data_userId = viewerId,
                                data_reflectionGroupId = reflectionGroupId,
                                unlockedStageIds = None\<rparr>
                    in (Data data, db1,
                        e2 @ [Publish MEETING meetingId ''VoteForReflectionGroupPayload'' data
                                \<lparr>sub_operationId = operationId ctx, mutatorId = socketId ctx\<rparr>])
                | Inr (Some isUnlock) \<Rightarrow>
                    let (newPhases, ids) =
                          unlockAllStagesForPhase h (phases meeting) ''discuss'' True isUnlock;
                        db2 = updatePhases meetingId newPhases db1;
                        data = \<lparr>data_meetingId = meetingId, data_userId = viewerId,
                                data_reflectionGroupId = reflectionGroupId,
                                unlockedStageIds = Some ids\<rparr>
                    in (Data data, db2,
                        e2 @ [UpdateMeetingPhases meetingId newPhases,
                              Publish MEETING meetingId ''VoteForReflectionGroupPayload'' data
                                \<lparr>sub_operationId = operationId ctx, mutatorId = socketId ctx\<rparr>])))"

subsection \<open>Authorization and validation, lines 38 to 74, and the whole resolver\<close>

text \<open>
  \<open>isUnvote\<close> is the argument after its default \<^verbatim>\<open>false\<close> has been applied. Every
  \<^verbatim>\<open>return\<close> of the source is a branch that gives the result, the document store as the
  call leaves it and the calls made up to there.
\<close>

definition resolve ::
  "('tok, 'err) Helpers \<Rightarrow> bool \<Rightarrow> ident \<Rightarrow> 'tok GQLContext \<Rightarrow> Database
     \<Rightarrow> 'err ResolveResult \<times> Database \<times> Effect list" where
  "resolve h isUnvote reflectionGroupId ctx db =
     (let viewerId = getUserId h (authToken ctx);
          e0 = [GetUserId, GetReflectionGroup reflectionGroupId];
          notFound =
            (StandardError ''Reflection group not found'' viewerId
               [(''reflectionGroupId'', reflectionGroupId),
                (''isUnvote'', JSON_stringify isUnvote)], db, e0)
      in case map_of (RetroReflectionGroup db) reflectionGroupId of
           None \<Rightarrow> notFound
         | Some reflectionGroup \<Rightarrow>
             if \<not> isActive reflectionGroup then notFound
             else
               let mid = group_meetingId reflectionGroup;
                   e1 = e0 @ [GetMeeting mid]
               in (case map_of (NewMeeting db) mid of
                    None \<Rightarrow> (Threw TypeError, db, e1)
                  | Some meeting \<Rightarrow>
                      let e2 = e1 @ [IsTeamMember (teamId meeting)] in
                      if \<not> isTeamMember h (authToken ctx) (teamId meeting) then
                        (StandardError ''Team not found'' viewerId [], db, e2)
                      else if endedAt meeting \<noteq> None then
                        (StandardError ''Meeting already ended'' viewerId [], db, e2)
                      else if isPhaseComplete h VOTE (phases meeting) then
                        (StandardError ''Meeting phase already completed'' viewerId [], db, e2)
                      else
                        let e3 = e2 @ [GetMeetingMember mid viewerId] in
                        (case getMeetingMember db mid viewerId of
                          None \<Rightarrow> (StandardError ''Meeting member not found'' viewerId [], db, e3)
                        | Some meetingMember \<Rightarrow>
                            (case resolution h isUnvote reflectionGroupId ctx viewerId mid meeting db of
                               (res, db', es) \<Rightarrow> (res, db', e3 @ es)))))"



section \<open>Properties of a run of the resolver\<close>

text \<open>
  The calls of a run are classified by what they do: the authorization check, an access
  to the votes (the two vote helpers and the load of the reflection groups that the tally
  reads), a write to the document store, the update of the phases, the publication.
\<close>

fun isAuthorization :: "Effect \<Rightarrow> bool" where
  "isAuthorization (IsTeamMember _) = True"
| "isAuthorization _ = False"

fun isVoteStateAccess :: "Effect \<Rightarrow> bool" where
  "isVoteStateAccess (SafelyWithdrawVote _ _ _) = True"
| "isVoteStateAccess (SafelyCastVote _ _ _ _) = True"
| "isVoteStateAccess (LoadReflectionGroups _) = True"
| "isVoteStateAccess _ = False"

fun isWrite :: "Effect \<Rightarrow> bool" where
  "isWrite (SafelyWithdrawVote _ _ _) = True"
| "isWrite (SafelyCastVote _ _ _ _) = True"
| "isWrite (UpdateMeetingPhases _ _) = True"
| "isWrite _ = False"

fun isUpdate :: "Effect \<Rightarrow> bool" where
  "isUpdate (UpdateMeetingPhases _ _) = True"
| "isUpdate _ = False"

fun isPublish :: "Effect \<Rightarrow> bool" where
  "isPublish (Publish _ _ _ _ _) = True"
| "isPublish _ = False"

text \<open>
  \<open>precededBy P Q es\<close>: every call of \<open>es\<close> that satisfies \<open>Q\<close> comes after a call that
  satisfies \<open>P\<close>. \<open>noneAfter P Q es\<close>: no call that satisfies \<open>Q\<close> comes after a call that
  satisfies \<open>P\<close>.
\<close>

fun precededBy :: "(Effect \<Rightarrow> bool) \<Rightarrow> (Effect \<Rightarrow> bool) \<Rightarrow> Effect list \<Rightarrow> bool" where
  "precededBy P Q [] = True"
| "precededBy P Q (e # es) = (if P e then True else \<not> Q e \<and> precededBy P Q es)"

fun noneAfter :: "(Effect \<Rightarrow> bool) \<Rightarrow> (Effect \<Rightarrow> bool) \<Rightarrow> Effect list \<Rightarrow> bool" where
  "noneAfter P Q [] = True"
| "noneAfter P Q (e # es) = ((if P e then \<not> list_ex Q es else True) \<and> noneAfter P Q es)"

definition isData :: "'err ResolveResult \<Rightarrow> bool" where
  "isData res = (case res of Data _ \<Rightarrow> True | _ \<Rightarrow> False)"

text \<open>
  The five validation failures of lines 44 to 74: the reflection group is missing or
  inactive, the caller is not a member of the team of the meeting, the meeting has ended,
  the vote phase is complete, the caller has no meeting member record. The last four are
  failures of a meeting that exists; a reflection group whose meeting document is missing
  is not among them, it makes line 55 throw.
\<close>

definition validationFails ::
  "('tok, 'err) Helpers \<Rightarrow> ident \<Rightarrow> 'tok GQLContext \<Rightarrow> Database \<Rightarrow> bool" where
  "validationFails h reflectionGroupId ctx db =
     (case map_of (RetroReflectionGroup db) reflectionGroupId of
        None \<Rightarrow> True
      | Some g \<Rightarrow>
          \<not> isActive g \<or>
          (case map_of (NewMeeting db) (group_meetingId g) of
             None \<Rightarrow> False
           | Some m \<Rightarrow>
               \<not> isTeamMember h (authToken ctx) (teamId m)
               \<or> endedAt m \<noteq> None
               \<or> isPhaseComplete h VOTE (phases m)
               \<or> getMeetingMember db (group_meetingId g) (getUserId h (authToken ctx)) = None))"

text \<open>
  The document store as the vote helper of lines 77 to 94 leaves it: the store on which
  the resolver makes its own write.
\<close>

definition dbAfterVote ::
  "('tok, 'err) Helpers \<Rightarrow> bool \<Rightarrow> ident \<Rightarrow> 'tok GQLContext \<Rightarrow> Meeting \<Rightarrow> ident \<Rightarrow> Database
     \<Rightarrow> Database" where
  "dbAfterVote h isUnvote reflectionGroupId ctx meeting meetingId db =
     snd (castOrWithdraw h isUnvote (authToken ctx) meetingId (getUserId h (authToken ctx))
            reflectionGroupId (maxVotesPerGroup meeting) db)"

text \<open>
  \<open>phasesPersisted h isUnlock meeting meetingId db1 d db' es\<close>: the run called
  \<^verbatim>\<open>unlockAllStagesForPhase(phases, 'discuss', true, isUnlock)\<close> on the phases of the meeting,
  wrote the phases it left to the meeting document of the store \<open>db1\<close>, which gave the
  store \<open>db'\<close>, made this one update and no other, and returned the ids of the stages in
  \<open>d\<close>. \<open>phasesUnchanged db1 d db' es\<close>: the run made no update, the store is \<open>db1\<close> and
  \<open>d\<close> has no stage ids.
\<close>

definition phasesPersisted ::
  "('tok, 'err) Helpers \<Rightarrow> bool \<Rightarrow> Meeting \<Rightarrow> ident \<Rightarrow> Database \<Rightarrow> VoteData \<Rightarrow> Database
     \<Rightarrow> Effect list \<Rightarrow> bool" where
  "phasesPersisted h isUnlock meeting meetingId db1 d db' es =
     (let (newPhases, ids) = unlockAllStagesForPhase h (phases meeting) ''discuss'' True isUnlock
      in db' = updatePhases meetingId newPhases db1
         \<and> unlockedStageIds d = Some ids
         \<and> filter isUpdate es = [UpdateMeetingPhases meetingId newPhases])"

definition phasesUnchanged :: "Database \<Rightarrow> VoteData \<Rightarrow> Database \<Rightarrow> Effect list \<Rightarrow> bool" where
  "phasesUnchanged db1 d db' es =
     (db' = db1 \<and> unlockedStageIds d = None \<and> filter isUpdate es = [])"

section \<open>An instance of the helpers and a document store\<close>

text \<open>
  One implementation of the imported functions, and a small document store, on which the
  resolver is run. The theorems about the resolver hold for every implementation; this one
  is used for the examples only. The token carries the user and the teams of the user, a
  phase is complete when all its stages are, unlocking sets the flag of every stage of the
  first phase of the given type, a vote appends the user to the voters of the group unless
  the user has the maximum number of votes on it, withdrawing removes one vote of the user,
  and the loader gives the active groups of the meeting.
\<close>

record AuthToken =
  sub :: ident
  tms :: "ident list"

definition sampleIsPhaseComplete :: "string \<Rightarrow> Phase list \<Rightarrow> bool" where
  "sampleIsPhaseComplete pt phs =
     (case List.find (\<lambda>p. phaseType p = pt) phs of
        None \<Rightarrow> False
      | Some p \<Rightarrow> list_all isComplete (stages p))"

fun sampleUnlockPhases :: "Phase list \<Rightarrow> string \<Rightarrow> bool \<Rightarrow> bool \<Rightarrow> Phase list" where
  "sampleUnlockPhases [] pt isForFacilitator isUnlock = []"
| "sampleUnlockPhases (p # ps) pt isForFacilitator isUnlock =
     (if phaseType p = pt then
        p\<lparr>stages :=
            map (\<lambda>s. if isForFacilitator then s\<lparr>isNavigableByFacilitator := isUnlock\<rparr>
                      else s\<lparr>isNavigable := isUnlock\<rparr>) (stages p)\<rparr> # ps
      else p # sampleUnlockPhases ps pt isForFacilitator isUnlock)"

definition sampleUnlockAllStagesForPhase ::
  "Phase list \<Rightarrow> string \<Rightarrow> bool \<Rightarrow> bool \<Rightarrow> Phase list \<times> ident list" where
  "sampleUnlockAllStagesForPhase phs pt isForFacilitator isUnlock =
     (sampleUnlockPhases phs pt isForFacilitator isUnlock,
      case List.find (\<lambda>p. phaseType p = pt) phs of
        None \<Rightarrow> []
      | Some p \<Rightarrow> map stage_id (stages p))"

definition updateGroup ::
  "ident \<Rightarrow> (ReflectionGroup \<Rightarrow> ReflectionGroup) \<Rightarrow> Database \<Rightarrow> Database" where
  "updateGroup gid f db =
     db\<lparr>RetroReflectionGroup :=
          map (\<lambda>(k, g). if k = gid then (k, f g) else (k, g)) (RetroReflectionGroup db)\<rparr>"

definition sampleSafelyCastVote ::
  "AuthToken \<Rightarrow> ident \<Rightarrow> ident \<Rightarrow> ident \<Rightarrow> nat \<Rightarrow> Database \<Rightarrow> string option \<times> Database" where
  "sampleSafelyCastVote tok meetingId viewerId gid maxVotes db =
     (case map_of (RetroReflectionGroup db) gid of
        None \<Rightarrow> (Some ''no group'', db)
      | Some g \<Rightarrow>
          if maxVotes \<le> length (filter (\<lambda>v. v = viewerId) (voterIds g))
          then (Some ''max votes per group exceeded'', db)
          else (None, updateGroup gid (\<lambda>g. g\<lparr>voterIds := voterIds g @ [viewerId]\<rparr>) db))"

definition sampleSafelyWithdrawVote ::
  "AuthToken \<Rightarrow> ident \<Rightarrow> ident \<Rightarrow> ident \<Rightarrow> Database \<Rightarrow> string option \<times> Database" where
  "sampleSafelyWithdrawVote tok meetingId viewerId gid db =
     (case map_of (RetroReflectionGroup db) gid of
        None \<Rightarrow> (Some ''no group'', db)
      | Some g \<Rightarrow>
          if viewerId \<in> set (voterIds g)
          then (None, updateGroup gid (\<lambda>g. g\<lparr>voterIds := remove1 viewerId (voterIds g)\<rparr>) db)
          else (Some ''no vote to withdraw'', db))"

definition sampleHelpers :: "(AuthToken, string) Helpers" where
  "sampleHelpers =
     \<lparr>getUserId = sub,
      isTeamMember = (\<lambda>tok t. t \<in> set (tms tok)),
      isPhaseComplete = sampleIsPhaseComplete,
      unlockAllStagesForPhase = sampleUnlockAllStagesForPhase,
      safelyCastVote = sampleSafelyCastVote,
      safelyWithdrawVote = sampleSafelyWithdrawVote,
      retroReflectionGroupsByMeetingId =
        (\<lambda>db mid. filter (\<lambda>g. group_meetingId g = mid \<and> isActive g)
                     (map snd (RetroReflectionGroup db)))\<rparr>"

definition lockedStage :: "ident \<Rightarrow> Stage" where
  "lockedStage i =
     \<lparr>stage_id = i, isComplete = False, isNavigable = False, isNavigableByFacilitator = False\<rparr>"

definition openStage :: "ident \<Rightarrow> Stage" where
  "openStage i =
     \<lparr>stage_id = i, isComplete = False, isNavigable = True, isNavigableByFacilitator = True\<rparr>"

definition sampleMeeting :: "Phase list \<Rightarrow> Meeting" where
  "sampleMeeting phs =
     \<lparr>endedAt = None, phases = phs, maxVotesPerGroup = 3, teamId = ''t1'',
      rest = [(''name'', ''Retro 1'')]\<rparr>"

definition samplePhases :: "Phase list" where
  "samplePhases =
     [\<lparr>phaseType = ''vote'', stages = [openStage ''v1'']\<rparr>,
      \<lparr>phaseType = ''discuss'', stages = [lockedStage ''d1'', lockedStage ''d2'']\<rparr>]"

definition sampleGroup :: "bool \<Rightarrow> ident list \<Rightarrow> ReflectionGroup" where
  "sampleGroup a vs = \<lparr>isActive = a, group_meetingId = ''m1'', voterIds = vs\<rparr>"

definition sampleDb :: "Phase list \<Rightarrow> ident list \<Rightarrow> Database" where
  "sampleDb phs vs =
     \<lparr>RetroReflectionGroup = [(''g1'', sampleGroup True vs), (''g2'', sampleGroup False [])],
      NewMeeting = [(''m1'', sampleMeeting phs)],
      MeetingMemberTable = [\<lparr>member_meetingId = ''m1'', member_userId = ''u1''\<rparr>]\<rparr>"

definition sampleCtx :: "AuthToken GQLContext" where
  "sampleCtx =
     \<lparr>authToken = \<lparr>sub = ''u1'', tms = [''t1'']\<rparr>, operationId = ''op1'', socketId = ''s1''\<rparr>"

definition unlockedPhases :: "Phase list" where
  "unlockedPhases =
     [\<lparr>phaseType = ''vote'', stages = [openStage ''v1'']\<rparr>,
      \<lparr>phaseType = ''discuss'',
       stages = [(lockedStage ''d1'')\<lparr>isNavigableByFacilitator := True\<rparr>,
                 (lockedStage ''d2'')\<lparr>isNavigableByFacilitator := True\<rparr>]\<rparr>]"

definition castData :: VoteData where
  "castData =
     \<lparr>data_meetingId = ''m1'', data_userId = ''u1'', data_reflectionGroupId = ''g1'',
      unlockedStageIds = Some [''d1'', ''d2'']\<rparr>"

definition castTrace :: "Effect list" where
  "castTrace =
     [GetUserId, GetReflectionGroup ''g1'', GetMeeting ''m1'', IsTeamMember ''t1'',
      GetMeetingMember ''m1'' ''u1'', SafelyCastVote ''m1'' ''u1'' ''g1'' 3,
      LoadReflectionGroups ''m1'', UpdateMeetingPhases ''m1'' unlockedPhases,
      Publish MEETING ''m1'' ''VoteForReflectionGroupPayload'' castData
        \<lparr>sub_operationId = ''op1'', mutatorId = ''s1''\<rparr>]"


definition withdrawTrace :: "Effect list" where
  "withdrawTrace =
     [GetUserId, GetReflectionGroup ''g1'', GetMeeting ''m1'', IsTeamMember ''t1'',
      GetMeetingMember ''m1'' ''u1'', SafelyWithdrawVote ''m1'' ''u1'' ''g1'',
      LoadReflectionGroups ''m1'', UpdateMeetingPhases ''m1'' samplePhases,
      Publish MEETING ''m1'' ''VoteForReflectionGroupPayload'' castData
        \<lparr>sub_operationId = ''op1'', mutatorId = ''s1''\<rparr>]"

section \<open>The spotlight columns\<close>

text \<open>
  \<^verbatim>\<open>useSpotlightColumns\<close> keeps the column layout in a state variable, \<^verbatim>\<open>null\<close> at first, and
  writes the number of columns to the \<^verbatim>\<open>viewer\<close> record of the local store when there is
  one.
\<close>

record Viewer =
  maxSpotlightColumns :: "nat option"

record SpotlightState =
  columns :: "nat list option"
  viewer :: "Viewer option"

text \<open>
  The constant \<^verbatim>\<open>ElementWidth.MEETING_CARD_WITH_MARGIN\<close> is declared outside the source at
  hand and is a parameter. \<^verbatim>\<open>width / 0\<close> is \<^verbatim>\<open>Infinity\<close> for a positive width, and the
  minimum of \<^verbatim>\<open>Infinity\<close> and \<^verbatim>\<open>maxColumnsLargeScreen\<close> is the latter: this is the
  first branch.
\<close>

definition maxColumns :: "nat \<Rightarrow> nat \<Rightarrow> nat" where
  "maxColumns MEETING_CARD_WITH_MARGIN width =
     (let maxColumnsLargeScreen = 3;
          minColumns = 1
      in if MEETING_CARD_WITH_MARGIN = 0 then max maxColumnsLargeScreen minColumns
         else max (min (width div MEETING_CARD_WITH_MARGIN) maxColumnsLargeScreen) minColumns)"

text \<open>\<^verbatim>\<open>Math.ceil(groupsCount / maxColumns)\<close>, for a positive \<^verbatim>\<open>maxColumns\<close>.\<close>

definition groupsPerColumn :: "nat \<Rightarrow> nat \<Rightarrow> nat" where
  "groupsPerColumn groupsCount maxCols = (groupsCount + maxCols - 1) div maxCols"

definition columnsCount :: "nat \<Rightarrow> nat \<Rightarrow> nat \<Rightarrow> nat" where
  "columnsCount MEETING_CARD_WITH_MARGIN width groupsCount =
     (let minColumns = 1;
          minGroupsPerColumn = 2;
          maxCols = maxColumns MEETING_CARD_WITH_MARGIN width
      in if groupsPerColumn groupsCount maxCols < minGroupsPerColumn \<and> maxCols \<noteq> minColumns
         then maxCols - 1 else maxCols)"

text \<open>
  \<^verbatim>\<open>getColumns\<close>: \<open>clientWidth\<close> is \<open>None\<close> when the reference holds no element; the function
  returns without a change when the width is missing or zero.
\<close>

definition getColumns :: "nat \<Rightarrow> nat option \<Rightarrow> nat \<Rightarrow> SpotlightState \<Rightarrow> SpotlightState" where
  "getColumns MEETING_CARD_WITH_MARGIN clientWidth groupsCount st =
     (case clientWidth of
        None \<Rightarrow> st
      | Some width \<Rightarrow>
          if width = 0 then st
          else if groupsCount \<le> 2 then st\<lparr>columns := Some [0]\<rparr>
          else
            let cnt = columnsCount MEETING_CARD_WITH_MARGIN width groupsCount;
                newColumns = [0..<cnt]
            in st\<lparr>columns := Some newColumns,
                   viewer := map_option (\<lambda>v. v\<lparr>maxSpotlightColumns := Some cnt\<rparr>) (viewer st)\<rparr>)"

section \<open>The Slack toggle of the stage timer\<close>

text \<open>
  The fragment of the facilitator that \<^verbatim>\<open>StageTimerModalEndTimeSlackToggle\<close> reads. An
  integration may be \<^verbatim>\<open>null\<close>, and so may a channel id.
\<close>

record SlackNotification =
  event :: string
  channelId :: "string option"

record Slack =
  slack_isActive :: bool
  defaultTeamChannelId :: "string option"
  notifications :: "SlackNotification list"

record Mattermost =
  mattermost_isActive :: bool

record Integrations =
  mattermost :: "Mattermost option"
  slack :: "Slack option"

record Facilitator =
  facilitator_teamId :: string
  integrations :: Integrations

record SetSlackNotificationMutationVariables =
  slackChannelId :: "string option"
  slackNotificationEvents :: "string list"
  variables_teamId :: string

text \<open>What a click does: the calls of \<^verbatim>\<open>onClick\<close>, in their order.\<close>

datatype ClickEffect =
    SubmitMutation
  | SetSlackNotificationMutation SetSlackNotificationMutationVariables
  | OpenOAuth string

text \<open>\<^verbatim>\<open>slack?.notifications ?? []\<close>\<close>

definition slackNotifications :: "Facilitator \<Rightarrow> SlackNotification list" where
  "slackNotifications facilitator =
     (case slack (integrations facilitator) of None \<Rightarrow> [] | Some s \<Rightarrow> notifications s)"

definition timeLimitEvent :: "Facilitator \<Rightarrow> SlackNotification option" where
  "timeLimitEvent facilitator =
     List.find (\<lambda>notification. event notification = ''MEETING_STAGE_TIME_LIMIT_START'')
       (slackNotifications facilitator)"

text \<open>\<^verbatim>\<open>!!channelId\<close>: \<^verbatim>\<open>null\<close> and the empty string are falsy.\<close>

definition truthy :: "string option \<Rightarrow> bool" where
  "truthy s = (case s of None \<Rightarrow> False | Some v \<Rightarrow> v \<noteq> [])"

definition slackToggleActive :: "Facilitator \<Rightarrow> bool" where
  "slackToggleActive facilitator =
     (case timeLimitEvent facilitator of
        None \<Rightarrow> False
      | Some n \<Rightarrow> truthy (channelId n))"

text \<open>\<open>submitting\<close> is the flag of \<^verbatim>\<open>useMutationProps\<close> at the time of the click.\<close>

definition onClick :: "Facilitator \<Rightarrow> bool \<Rightarrow> ClickEffect list" where
  "onClick facilitator submitting =
     (case slack (integrations facilitator) of
        None \<Rightarrow> [OpenOAuth (facilitator_teamId facilitator)]
      | Some s \<Rightarrow>
          if slack_isActive s then
            if submitting then []
            else
              [SubmitMutation,
               SetSlackNotificationMutation
                 \<lparr>slackChannelId =
                    (if slackToggleActive facilitator then None else defaultTeamChannelId s),
                  slackNotificationEvents = [''MEETING_STAGE_TIME_LIMIT_START''],
                  variables_teamId = facilitator_teamId facilitator\<rparr>]
          else [OpenOAuth (facilitator_teamId facilitator)])"

text \<open>
  The condition as the specification words it: the notifications contain an entry whose
  event is \<^verbatim>\<open>MEETING_STAGE_TIME_LIMIT_START\<close> with a channel id that is not \<^verbatim>\<open>null\<close>.
\<close>

definition containsTimeLimitChannel :: "Facilitator \<Rightarrow> bool" where
  "containsTimeLimitChannel facilitator =
     list_ex (\<lambda>n. event n = ''MEETING_STAGE_TIME_LIMIT_START'' \<and> channelId n \<noteq> None)
       (slackNotifications facilitator)"

text \<open>A facilitator with an active Slack integration and the given notifications.\<close>

definition facilitatorWith :: "SlackNotification list \<Rightarrow> Facilitator" where
  "facilitatorWith ns =
     \<lparr>facilitator_teamId = ''team1'',
      integrations = \<lparr>mattermost = None,
        slack = Some \<lparr>slack_isActive = True, defaultTeamChannelId = Some ''C0'',
                      notifications = ns\<rparr>\<rparr>\<rparr>"

definition timeLimitNotification :: "string option \<Rightarrow> SlackNotification" where
  "timeLimitNotification c = \<lparr>event = ''MEETING_STAGE_TIME_LIMIT_START'', channelId = c\<rparr>"

section \<open>The migration that creates the updatedAt trigger\<close>

text \<open>
  The migration sends two SQL scripts to the relational store. The model keeps what the
  scripts name: the tables, the trigger functions and the triggers of a schema. A row is a
  map from column names to values; a trigger function is given the value of \<^verbatim>\<open>now()\<close>, the
  time of the transaction, and the row \<^verbatim>\<open>NEW\<close>, and returns the row to store. Every trigger
  of the model is of the one kind the migration creates:
  \<^verbatim>\<open>BEFORE UPDATE ... FOR EACH ROW EXECUTE PROCEDURE\<close>.
\<close>

datatype SqlValue = SqlNull | SqlText string | SqlTimestamp timestamp

type_synonym row = "string \<Rightarrow> SqlValue option"

type_synonym trigger_function = "timestamp \<Rightarrow> row \<Rightarrow> row"

record Trigger =
  trigger_name :: string
  trigger_table :: string
  trigger_procedure :: string

record Schema =
  schema_tables :: "string list"
  schema_functions :: "(string \<times> trigger_function) list"
  schema_triggers :: "Trigger list"

datatype SqlError =
    undefined_table
  | undefined_function
  | undefined_object
  | duplicate_object
  | dependent_objects_still_exist

datatype Statement =
    CreateOrReplaceFunction string trigger_function
  | CreateTrigger string string string
  | DropTrigger string string
  | DropFunction string

definition hasFunction :: "Schema \<Rightarrow> string \<Rightarrow> bool" where
  "hasFunction s f = (f \<in> fst ` set (schema_functions s))"

definition hasTrigger :: "Schema \<Rightarrow> string \<Rightarrow> string \<Rightarrow> bool" where
  "hasTrigger s n t =
     list_ex (\<lambda>g. trigger_name g = n \<and> trigger_table g = t) (schema_triggers s)"

text \<open>
  One statement. \<^verbatim>\<open>CREATE OR REPLACE FUNCTION\<close> replaces a function of the same name;
  \<^verbatim>\<open>CREATE TRIGGER\<close> needs the table and the function and fails when the table has a
  trigger of that name; \<^verbatim>\<open>DROP TRIGGER\<close> and \<^verbatim>\<open>DROP FUNCTION\<close>, written without
  \<^verbatim>\<open>IF EXISTS\<close> and without \<^verbatim>\<open>CASCADE\<close>, fail when the object is missing, and the
  latter fails when a trigger still calls the function.
\<close>

fun exec_statement :: "Statement \<Rightarrow> Schema \<Rightarrow> SqlError + Schema" where
  "exec_statement (CreateOrReplaceFunction f body) s =
     Inr (s\<lparr>schema_functions := (f, body) # filter (\<lambda>(k, _). k \<noteq> f) (schema_functions s)\<rparr>)"
| "exec_statement (CreateTrigger n t f) s =
     (if t \<notin> set (schema_tables s) then Inl undefined_table
      else if \<not> hasFunction s f then Inl undefined_function
      else if hasTrigger s n t then Inl duplicate_object
      else Inr (s\<lparr>schema_triggers :=
                   \<lparr>trigger_name = n, trigger_table = t, trigger_procedure = f\<rparr>
                     # schema_triggers s\<rparr>))"
| "exec_statement (DropTrigger n t) s =
     (if t \<notin> set (schema_tables s) then Inl undefined_table
      else if \<not> hasTrigger s n t then Inl undefined_object
      else Inr (s\<lparr>schema_triggers :=
                   filter (\<lambda>g. \<not> (trigger_name g = n \<and> trigger_table g = t))
                     (schema_triggers s)\<rparr>))"
| "exec_statement (DropFunction f) s =
     (if \<not> hasFunction s f then Inl undefined_function
      else if list_ex (\<lambda>g. trigger_procedure g = f) (schema_triggers s)
      then Inl dependent_objects_still_exist
      else Inr (s\<lparr>schema_functions := filter (\<lambda>(k, _). k \<noteq> f) (schema_functions s)\<rparr>))"

text \<open>
  \<^verbatim>\<open>client.query\<close> with a script of several statements: the statements run in order in one
  transaction, and the first error rejects the promise and leaves the schema as it was.
\<close>

fun query :: "Statement list \<Rightarrow> Schema \<Rightarrow> SqlError + Schema" where
  "query [] s = Inr s"
| "query (st # sts) s =
     (case exec_statement st s of
        Inl e \<Rightarrow> Inl e
      | Inr s' \<Rightarrow> query sts s')"

text \<open>
  The body of the function of lines 8 to 14:
  \<^verbatim>\<open>NEW."updatedAt" = now(); RETURN NEW;\<close>
\<close>

definition set_updatedAt :: trigger_function where
  "set_updatedAt now NEW = NEW(''updatedAt'' \<mapsto> SqlTimestamp now)"

definition up :: "Schema \<Rightarrow> SqlError + Schema" where
  "up s =
     query [CreateOrReplaceFunction ''set_updatedAt'' set_updatedAt,
            CreateTrigger ''update_User_updatedAt'' ''User'' ''set_updatedAt''] s"

definition down :: "Schema \<Rightarrow> SqlError + Schema" where
  "down s =
     query [DropTrigger ''update_User_updatedAt'' ''User'',
            DropFunction ''set_updatedAt''] s"




text \<open>A schema before the migration, the same schema after \<open>up\<close>, and a row of the table.\<close>

definition sampleSchema :: Schema where
  "sampleSchema = \<lparr>schema_tables = [''User''], schema_functions = [], schema_triggers = []\<rparr>"

definition migratedSchema :: Schema where
  "migratedSchema =
     \<lparr>schema_tables = [''User''],
      schema_functions = [(''set_updatedAt'', set_updatedAt)],
      schema_triggers = [\<lparr>trigger_name = ''update_User_updatedAt'', trigger_table = ''User'',
                          trigger_procedure = ''set_updatedAt''\<rparr>]\<rparr>"











section \<open>Evaluation of the examples\<close>

lemmas sample_defs =
  sampleHelpers_def sampleIsPhaseComplete_def sampleUnlockAllStagesForPhase_def
  sampleSafelyCastVote_def sampleSafelyWithdrawVote_def updateGroup_def
  lockedStage_def openStage_def sampleMeeting_def samplePhases_def sampleGroup_def
  sampleDb_def sampleCtx_def

lemmas resolver_defs =
  resolve_def resolution_def castOrWithdraw_def voteEffect_def isUnlockFor_def
  updatePhases_def getMeetingMember_def voteCount_def VOTE_def JSON_stringify_def Let_def

lemmas sample_out_defs = unlockedPhases_def castData_def castTrace_def withdrawTrace_def

lemma sample_cast_run:
  "resolve sampleHelpers False ''g1'' sampleCtx (sampleDb samplePhases []) =
     (Data castData, sampleDb unlockedPhases [''u1''], castTrace)"
  by (simp add: resolver_defs sample_defs sample_out_defs)

lemma sample_withdraw_run:
  "resolve sampleHelpers True ''g1'' sampleCtx (sampleDb unlockedPhases [''u1'']) =
     (Data castData, sampleDb samplePhases [], withdrawTrace)"
  by (simp add: resolver_defs sample_defs sample_out_defs)

section \<open>The vote tally\<close>

lemma foldl_voterIds_acc:
  "foldl (\<lambda>sum group. sum + length (voterIds group)) acc gs =
     acc + sum_list (map (\<lambda>group. length (voterIds group)) gs)"
  by (induction gs arbitrary: acc) simp_all

text \<open>
  Claim C5. For every list of reflection groups loaded for a meeting, the vote count of the
  resolver is the sum over the groups of the length of the group's \<open>voterIds\<close> list, and it
  is zero for the empty list of groups.
\<close>

theorem voteCount_is_sum_of_voterIds:
  "voteCount gs = (\<Sum>group\<leftarrow>gs. length (voterIds group)) \<and> voteCount [] = 0"
  by (simp add: voteCount_def foldl_voterIds_acc)

section \<open>The shape of a run\<close>

text \<open>
  A run that returns the success value, or that made a write, passed the validation: the
  reflection group and its meeting were found, and the rest of the run is that of
  \<open>resolution\<close>, after the five calls of the validation.
\<close>

lemma resolve_reaches_resolution:
  assumes "resolve h isUnvote reflectionGroupId ctx db = (res, db', es)"
    and "isData res \<or> list_ex isWrite es"
  shows "\<exists>g m es'.
           map_of (RetroReflectionGroup db) reflectionGroupId = Some g
           \<and> map_of (NewMeeting db) (group_meetingId g) = Some m
           \<and> resolution h isUnvote reflectionGroupId ctx (getUserId h (authToken ctx))
                 (group_meetingId g) m db = (res, db', es')
           \<and> es = [GetUserId, GetReflectionGroup reflectionGroupId,
                    GetMeeting (group_meetingId g), IsTeamMember (teamId m),
                    GetMeetingMember (group_meetingId g) (getUserId h (authToken ctx))] @ es'"
proof (cases "map_of (RetroReflectionGroup db) reflectionGroupId")
  case None
  with assms show ?thesis by (auto simp: resolve_def Let_def isData_def)
next
  case (Some g)
  note g = Some
  show ?thesis
  proof (cases "map_of (NewMeeting db) (group_meetingId g)")
    case None
    with assms g show ?thesis
      by (auto simp: resolve_def Let_def isData_def split: if_splits)
  next
    case (Some m)
    note m = Some
    show ?thesis
    proof (cases "getMeetingMember db (group_meetingId g) (getUserId h (authToken ctx))")
      case None
      with assms g m show ?thesis
        by (auto simp: resolve_def Let_def isData_def split: if_splits)
    next
      case (Some mm)
      obtain r d e where
        r: "resolution h isUnvote reflectionGroupId ctx (getUserId h (authToken ctx))
              (group_meetingId g) m db = (r, d, e)"
        by (cases "resolution h isUnvote reflectionGroupId ctx (getUserId h (authToken ctx))
              (group_meetingId g) m db") blast
      with assms g m Some show ?thesis
        by (auto simp: resolve_def Let_def isData_def split: if_splits)
    qed
  qed
qed

section \<open>Validation failures\<close>

text \<open>
  Claim C1. For every request that fails a validation check (the reflection group is
  missing or inactive, the caller is not a member of the team of the meeting, the meeting
  has ended, the vote phase is already complete, or the caller has no meeting member
  record), the resolver returns the value of \<^verbatim>\<open>standardError\<close>, leaves the document store
  as it was, and its calls contain neither a write to the meeting or the votes nor a
  publication.
\<close>

theorem validation_failure_no_effect:
  assumes "validationFails h reflectionGroupId ctx db"
  shows "\<exists>msg tags es.
           resolve h isUnvote reflectionGroupId ctx db =
             (StandardError msg (getUserId h (authToken ctx)) tags, db, es)
           \<and> \<not> list_ex isWrite es \<and> \<not> list_ex isPublish es"
  using assms
  by (auto simp: validationFails_def resolve_def Let_def split: option.splits)

theorem validation_failure_no_effect_witness:
  "validationFails sampleHelpers ''g2'' sampleCtx (sampleDb samplePhases [])
   \<and> resolve sampleHelpers False ''g2'' sampleCtx (sampleDb samplePhases []) =
       (StandardError ''Reflection group not found'' ''u1''
          [(''reflectionGroupId'', ''g2''), (''isUnvote'', ''false'')],
        sampleDb samplePhases [], [GetUserId, GetReflectionGroup ''g2''])"
proof -
  have v: "validationFails sampleHelpers ''g2'' sampleCtx (sampleDb samplePhases [])"
    by (simp add: validationFails_def sample_defs)
  from validation_failure_no_effect [OF v, of False] obtain msg tags es where
    "resolve sampleHelpers False ''g2'' sampleCtx (sampleDb samplePhases []) =
       (StandardError msg (getUserId sampleHelpers (authToken sampleCtx)) tags,
        sampleDb samplePhases [], es)"
    by blast
  moreover have "resolve sampleHelpers False ''g2'' sampleCtx (sampleDb samplePhases []) =
       (StandardError ''Reflection group not found'' ''u1''
          [(''reflectionGroupId'', ''g2''), (''isUnvote'', ''false'')],
        sampleDb samplePhases [], [GetUserId, GetReflectionGroup ''g2''])"
    by (simp add: resolver_defs sample_defs)
  ultimately show ?thesis using v by simp
qed

section \<open>The order of the calls\<close>

lemma resolution_order:
  assumes "resolution h isUnvote rg ctx viewerId meetingId meeting db = (res, db', es)"
  shows "list_all (\<lambda>e. \<not> isAuthorization e) es \<and> noneAfter isPublish isUpdate es
         \<and> length (filter isPublish es) = (if isData res then 1 else 0)
         \<and> (isData res \<longrightarrow> isPublish (last es)) \<and> es \<noteq> []"
  using assms
  by (auto simp: resolution_def Let_def voteEffect_def isData_def
           split: prod.splits option.splits sum.splits if_splits)

text \<open>
  Claim C2. In every run of the resolver the calls come in the order of the control flow
  of the specification: the caller is identified first; the authorization check comes
  before every access to the votes (the vote helpers and the load of the reflection groups
  that the tally reads; the read of the reflection group document at line 40 comes before
  the check, and only its \<^verbatim>\<open>isActive\<close> and \<^verbatim>\<open>meetingId\<close> are used); no update of the
  phases comes after a publication; a run that returns the success value publishes exactly
  once, as its last call, and every other run does not publish.
\<close>

theorem resolver_effect_order:
  assumes "resolve h isUnvote reflectionGroupId ctx db = (res, db', es)"
  shows "hd es = GetUserId
         \<and> precededBy isAuthorization isVoteStateAccess es
         \<and> noneAfter isPublish isUpdate es
         \<and> length (filter isPublish es) = (if isData res then 1 else 0)
         \<and> (isData res \<longrightarrow> isPublish (last es))"
  using assms
  by (auto simp: resolve_def Let_def isData_def dest!: resolution_order
           split: prod.splits option.splits sum.splits if_splits)

theorem resolver_effect_order_witness:
  "resolve sampleHelpers False ''g1'' sampleCtx (sampleDb samplePhases []) =
     (Data castData, sampleDb unlockedPhases [''u1''], castTrace)
   \<and> hd castTrace = GetUserId
   \<and> precededBy isAuthorization isVoteStateAccess castTrace
   \<and> noneAfter isPublish isUpdate castTrace
   \<and> length (filter isPublish castTrace) = 1
   \<and> isPublish (last castTrace)"
  using resolver_effect_order [OF sample_cast_run] sample_cast_run
  by (simp add: isData_def)

section \<open>What is published\<close>

lemma resolution_Data:
  assumes "resolution h isUnvote rg ctx viewerId meetingId meeting db = (Data d, db', es)"
  shows "filter isPublish es =
           [Publish MEETING meetingId ''VoteForReflectionGroupPayload'' d
              \<lparr>sub_operationId = operationId ctx, mutatorId = socketId ctx\<rparr>]
         \<and> data_meetingId d = meetingId \<and> data_userId d = viewerId
         \<and> data_reflectionGroupId d = rg"
proof (cases "castOrWithdraw h isUnvote (authToken ctx) meetingId viewerId rg
                (maxVotesPerGroup meeting) db")
  case (Pair votingError dbv)
  from assms Pair have ve: "votingError = None"
    by (cases votingError) (simp_all add: resolution_def Let_def)
  let ?cnt = "voteCount (retroReflectionGroupsByMeetingId h dbv meetingId)"
  show ?thesis
  proof (cases "isUnlockFor isUnvote (phases meeting) ?cnt")
    case (Inl exn)
    with assms Pair ve show ?thesis by (simp add: resolution_def Let_def)
  next
    case (Inr isUnlock)
    show ?thesis
    proof (cases isUnlock)
      case None
      with assms Pair ve Inr show ?thesis
        by (auto simp: resolution_def Let_def voteEffect_def)
    next
      case (Some u)
      with assms Pair ve Inr show ?thesis
        by (cases "unlockAllStagesForPhase h (phases meeting) ''discuss'' True u")
           (auto simp: resolution_def Let_def voteEffect_def)
    qed
  qed
qed

text \<open>
  Claim C3. On every successful run the one publication is made on the meeting channel,
  keyed by the meeting id of the reflection group that was voted on, with the type
  \<^verbatim>\<open>VoteForReflectionGroupPayload\<close>, and the data published is the value the resolver
  returns: the meeting id, the user id of the caller, the reflection group id and the
  unlocked stage ids.
\<close>

theorem publish_matches_return:
  assumes "resolve h isUnvote reflectionGroupId ctx db = (Data d, db', es)"
  shows "\<exists>g. map_of (RetroReflectionGroup db) reflectionGroupId = Some g
           \<and> filter isPublish es =
               [Publish MEETING (group_meetingId g) ''VoteForReflectionGroupPayload'' d
                  \<lparr>sub_operationId = operationId ctx, mutatorId = socketId ctx\<rparr>]
           \<and> data_meetingId d = group_meetingId g
           \<and> data_userId d = getUserId h (authToken ctx)
           \<and> data_reflectionGroupId d = reflectionGroupId"
proof -
  from resolve_reaches_resolution [OF assms] obtain g m es' where
    g: "map_of (RetroReflectionGroup db) reflectionGroupId = Some g" and
    r: "resolution h isUnvote reflectionGroupId ctx (getUserId h (authToken ctx))
          (group_meetingId g) m db = (Data d, db', es')" and
    es: "es = [GetUserId, GetReflectionGroup reflectionGroupId, GetMeeting (group_meetingId g),
               IsTeamMember (teamId m),
               GetMeetingMember (group_meetingId g) (getUserId h (authToken ctx))] @ es'"
    by (auto simp: isData_def)
  have "filter isPublish es = filter isPublish es'"
    by (simp add: es)
  with resolution_Data [OF r] g show ?thesis
    by simp
qed

theorem publish_matches_return_witness:
  "resolve sampleHelpers False ''g1'' sampleCtx (sampleDb samplePhases []) =
     (Data castData, sampleDb unlockedPhases [''u1''], castTrace)
   \<and> filter isPublish castTrace =
       [Publish MEETING ''m1'' ''VoteForReflectionGroupPayload'' castData
          \<lparr>sub_operationId = ''op1'', mutatorId = ''s1''\<rparr>]"
  using publish_matches_return [OF sample_cast_run] sample_cast_run
  by (simp add: sample_defs)

section \<open>Unlocking and locking the discuss phase\<close>

lemma resolution_withdraw:
  assumes "resolution h True rg ctx viewerId meetingId meeting db = (Data d, db', es)"
    and "db1 = snd (castOrWithdraw h True (authToken ctx) meetingId viewerId rg
                      (maxVotesPerGroup meeting) db)"
  shows "if voteCount (retroReflectionGroupsByMeetingId h db1 meetingId) = 0
         then phasesPersisted h False meeting meetingId db1 d db' es
         else phasesUnchanged db1 d db' es"
proof (cases "castOrWithdraw h True (authToken ctx) meetingId viewerId rg
                (maxVotesPerGroup meeting) db")
  case (Pair votingError dbv)
  with assms(2) have db1: "db1 = dbv" by simp
  from assms(1) Pair have ve: "votingError = None"
    by (cases votingError) (simp_all add: resolution_def Let_def)
  show ?thesis
  proof (cases "voteCount (retroReflectionGroupsByMeetingId h dbv meetingId) = 0")
    case True
    with assms(1) Pair ve db1 show ?thesis
      by (cases "unlockAllStagesForPhase h (phases meeting) ''discuss'' True False")
         (auto simp: resolution_def Let_def isUnlockFor_def voteEffect_def phasesPersisted_def)
  next
    case False
    with assms(1) Pair ve db1 show ?thesis
      by (auto simp: resolution_def Let_def isUnlockFor_def voteEffect_def phasesUnchanged_def)
  qed
qed

lemma resolution_cast:
  assumes "resolution h False rg ctx viewerId meetingId meeting db = (Data d, db', es)"
    and "db1 = snd (castOrWithdraw h False (authToken ctx) meetingId viewerId rg
                      (maxVotesPerGroup meeting) db)"
  shows "\<exists>p s ss. List.find (\<lambda>phase. phaseType phase = ''discuss'') (phases meeting) = Some p
               \<and> stages p = s # ss
               \<and> (if \<not> isNavigableByFacilitator s
                   then phasesPersisted h True meeting meetingId db1 d db' es
                   else phasesUnchanged db1 d db' es)"
proof (cases "castOrWithdraw h False (authToken ctx) meetingId viewerId rg
                (maxVotesPerGroup meeting) db")
  case (Pair votingError dbv)
  with assms(2) have db1: "db1 = dbv" by simp
  from assms(1) Pair have ve: "votingError = None"
    by (cases votingError) (simp_all add: resolution_def Let_def)
  from assms(1) Pair ve obtain p where
    p: "List.find (\<lambda>phase. phaseType phase = ''discuss'') (phases meeting) = Some p"
    by (cases "List.find (\<lambda>phase. phaseType phase = ''discuss'') (phases meeting)")
       (simp_all add: resolution_def Let_def isUnlockFor_def)
  from assms(1) Pair ve p obtain s ss where s: "stages p = s # ss"
    by (cases "stages p") (simp_all add: resolution_def Let_def isUnlockFor_def)
  have "if \<not> isNavigableByFacilitator s
        then phasesPersisted h True meeting meetingId db1 d db' es
        else phasesUnchanged db1 d db' es"
  proof (cases "isNavigableByFacilitator s")
    case True
    with assms(1) Pair ve p s db1 show ?thesis
      by (auto simp: resolution_def Let_def isUnlockFor_def voteEffect_def phasesUnchanged_def)
  next
    case False
    with assms(1) Pair ve p s db1 show ?thesis
      by (cases "unlockAllStagesForPhase h (phases meeting) ''discuss'' True True")
         (auto simp: resolution_def Let_def isUnlockFor_def voteEffect_def phasesPersisted_def)
  qed
  with p s show ?thesis by blast
qed

text \<open>
  Claim C4. On every successful run, with \<open>db1\<close> the document store as the vote helper
  left it: when a vote was cast and the first stage of the discuss phase is not navigable
  by the facilitator, the resolver calls \<^verbatim>\<open>unlockAllStagesForPhase\<close> on the discuss phase to
  unlock and writes the phases to the meeting; when a vote was withdrawn and the vote count
  over the loaded reflection groups is zero, it calls it to lock and writes the phases; in
  every other successful run it makes no update and the store is \<open>db1\<close>.
\<close>

theorem phase_unlock_toggle:
  assumes "resolve h isUnvote reflectionGroupId ctx db = (Data d, db', es)"
  shows "\<exists>g m db1.
           map_of (RetroReflectionGroup db) reflectionGroupId = Some g
           \<and> map_of (NewMeeting db) (group_meetingId g) = Some m
           \<and> db1 = dbAfterVote h isUnvote reflectionGroupId ctx m (group_meetingId g) db
           \<and> (if isUnvote
               then (if voteCount (retroReflectionGroupsByMeetingId h db1 (group_meetingId g)) = 0
                     then phasesPersisted h False m (group_meetingId g) db1 d db' es
                     else phasesUnchanged db1 d db' es)
               else (\<exists>p s ss.
                       List.find (\<lambda>phase. phaseType phase = ''discuss'') (phases m) = Some p
                       \<and> stages p = s # ss
                       \<and> (if \<not> isNavigableByFacilitator s
                           then phasesPersisted h True m (group_meetingId g) db1 d db' es
                           else phasesUnchanged db1 d db' es)))"
proof -
  from resolve_reaches_resolution [OF assms] obtain g m es' where
    g: "map_of (RetroReflectionGroup db) reflectionGroupId = Some g" and
    m: "map_of (NewMeeting db) (group_meetingId g) = Some m" and
    r: "resolution h isUnvote reflectionGroupId ctx (getUserId h (authToken ctx))
          (group_meetingId g) m db = (Data d, db', es')" and
    es: "es = [GetUserId, GetReflectionGroup reflectionGroupId, GetMeeting (group_meetingId g),
               IsTeamMember (teamId m),
               GetMeetingMember (group_meetingId g) (getUserId h (authToken ctx))] @ es'"
    by (auto simp: isData_def)
  have f: "filter isUpdate es' = filter isUpdate es"
    by (simp add: es)
  have pp: "\<And>u db1. phasesPersisted h u m (group_meetingId g) db1 d db' es'
                  = phasesPersisted h u m (group_meetingId g) db1 d db' es"
    by (simp add: phasesPersisted_def f)
  have pu: "\<And>db1. phasesUnchanged db1 d db' es' = phasesUnchanged db1 d db' es"
    by (simp add: phasesUnchanged_def f)
  let ?db1 = "dbAfterVote h isUnvote reflectionGroupId ctx m (group_meetingId g) db"
  have "if isUnvote
        then (if voteCount (retroReflectionGroupsByMeetingId h ?db1 (group_meetingId g)) = 0
              then phasesPersisted h False m (group_meetingId g) ?db1 d db' es
              else phasesUnchanged ?db1 d db' es)
        else (\<exists>p s ss.
                List.find (\<lambda>phase. phaseType phase = ''discuss'') (phases m) = Some p
                \<and> stages p = s # ss
                \<and> (if \<not> isNavigableByFacilitator s
                    then phasesPersisted h True m (group_meetingId g) ?db1 d db' es
                    else phasesUnchanged ?db1 d db' es))"
  proof (cases isUnvote)
    case True
    from r True have r': "resolution h True reflectionGroupId ctx (getUserId h (authToken ctx))
          (group_meetingId g) m db = (Data d, db', es')" by simp
    have d1: "?db1 = snd (castOrWithdraw h True (authToken ctx) (group_meetingId g)
                (getUserId h (authToken ctx)) reflectionGroupId (maxVotesPerGroup m) db)"
      using True by (simp add: dbAfterVote_def)
    from resolution_withdraw [OF r' d1] True show ?thesis
      by (simp only: pp pu if_True)
  next
    case False
    from r False have r': "resolution h False reflectionGroupId ctx (getUserId h (authToken ctx))
          (group_meetingId g) m db = (Data d, db', es')" by simp
    have d1: "?db1 = snd (castOrWithdraw h False (authToken ctx) (group_meetingId g)
                (getUserId h (authToken ctx)) reflectionGroupId (maxVotesPerGroup m) db)"
      using False by (simp add: dbAfterVote_def)
    from resolution_cast [OF r' d1] False show ?thesis
      by (simp only: pp pu if_False)
  qed
  with g m show ?thesis
    by (intro exI [of _ g] exI [of _ m] exI [of _ ?db1] conjI refl)
qed

theorem phase_unlock_toggle_witness:
  "resolve sampleHelpers False ''g1'' sampleCtx (sampleDb samplePhases []) =
     (Data castData, sampleDb unlockedPhases [''u1''], castTrace)
   \<and> phasesPersisted sampleHelpers True (sampleMeeting samplePhases) ''m1''
       (sampleDb samplePhases [''u1'']) castData (sampleDb unlockedPhases [''u1'']) castTrace
   \<and> map_of (NewMeeting (sampleDb unlockedPhases [''u1''])) ''m1'' =
       Some (sampleMeeting unlockedPhases)
   \<and> resolve sampleHelpers True ''g1'' sampleCtx (sampleDb unlockedPhases [''u1'']) =
       (Data castData, sampleDb samplePhases [], withdrawTrace)
   \<and> phasesPersisted sampleHelpers False (sampleMeeting unlockedPhases) ''m1''
       (sampleDb unlockedPhases []) castData (sampleDb samplePhases []) withdrawTrace"
proof -
  have c: "phasesPersisted sampleHelpers True (sampleMeeting samplePhases) ''m1''
       (sampleDb samplePhases [''u1'']) castData (sampleDb unlockedPhases [''u1'']) castTrace"
    using phase_unlock_toggle [OF sample_cast_run]
    by (simp add: sample_defs dbAfterVote_def castOrWithdraw_def)
  have w: "phasesPersisted sampleHelpers False (sampleMeeting unlockedPhases) ''m1''
       (sampleDb unlockedPhases []) castData (sampleDb samplePhases []) withdrawTrace"
    using phase_unlock_toggle [OF sample_withdraw_run]
    by (simp add: sample_defs unlockedPhases_def dbAfterVote_def castOrWithdraw_def voteCount_def)
  from c w show ?thesis
    using sample_cast_run sample_withdraw_run by (simp add: sampleDb_def)
qed

section \<open>The frame of the update\<close>

lemma voteEffect_not_update:
  "UpdateMeetingPhases mid newPhases \<noteq> voteEffect isUnvote a b c n"
  "voteEffect isUnvote a b c n \<noteq> UpdateMeetingPhases mid newPhases"
  by (simp_all add: voteEffect_def)

lemma resolution_update:
  assumes "resolution h isUnvote rg ctx viewerId meetingId meeting db = (res, db', es)"
    and "UpdateMeetingPhases mid newPhases \<in> set es"
  shows "mid = meetingId
         \<and> db' = updatePhases meetingId newPhases
                   (snd (castOrWithdraw h isUnvote (authToken ctx) meetingId viewerId rg
                           (maxVotesPerGroup meeting) db))"
proof (cases "castOrWithdraw h isUnvote (authToken ctx) meetingId viewerId rg
                (maxVotesPerGroup meeting) db")
  case (Pair votingError dbv)
  from assms Pair have ve: "votingError = None"
    by (cases votingError) (auto simp: resolution_def Let_def voteEffect_not_update)
  let ?cnt = "voteCount (retroReflectionGroupsByMeetingId h dbv meetingId)"
  show ?thesis
  proof (cases "isUnlockFor isUnvote (phases meeting) ?cnt")
    case (Inl exn)
    with assms Pair ve show ?thesis
      by (auto simp: resolution_def Let_def voteEffect_not_update)
  next
    case (Inr isUnlock)
    show ?thesis
    proof (cases isUnlock)
      case None
      with assms Pair ve Inr show ?thesis
        by (auto simp: resolution_def Let_def voteEffect_not_update)
    next
      case (Some u)
      with assms Pair ve Inr show ?thesis
        by (cases "unlockAllStagesForPhase h (phases meeting) ''discuss'' True u")
           (auto simp: resolution_def Let_def voteEffect_not_update)
    qed
  qed
qed

lemma map_of_map_phases:
  "map_of (map (\<lambda>(k, m). if k = mid then (k, m\<lparr>phases := newPhases\<rparr>) else (k, m))
             (xs :: (ident \<times> Meeting) list)) k =
     map_option (\<lambda>m. if k = mid then m\<lparr>phases := newPhases\<rparr> else m) (map_of xs k)"
  by (induction xs) auto

lemma map_of_updatePhases:
  "map_of (NewMeeting (updatePhases mid newPhases db)) k =
     map_option (\<lambda>m. if k = mid then m\<lparr>phases := newPhases\<rparr> else m) (map_of (NewMeeting db) k)"
  by (simp add: updatePhases_def map_of_map_phases)

lemma updatePhases_other_tables:
  "RetroReflectionGroup (updatePhases mid newPhases db) = RetroReflectionGroup db
   \<and> MeetingMemberTable (updatePhases mid newPhases db) = MeetingMemberTable db
   \<and> map fst (NewMeeting (updatePhases mid newPhases db)) = map fst (NewMeeting db)"
  by (auto simp: updatePhases_def)

text \<open>
  Claim C8. When the resolver makes its write of the phases, to the meeting \<open>mid\<close>, the
  write changes the field \<open>phases\<close> of that meeting and nothing else. With \<open>db1\<close> the
  document store as the vote helper left it: the reflection groups and the meeting members
  of the final store are those of \<open>db1\<close>, the meetings have the same keys, the meeting
  \<open>mid\<close> is that of \<open>db1\<close> with the new phases, so that its \<open>endedAt\<close>,
  \<open>maxVotesPerGroup\<close>, \<open>teamId\<close> and all its other fields are unchanged, and every other
  meeting is unchanged.
\<close>

theorem update_writes_only_phases:
  assumes "resolve h isUnvote reflectionGroupId ctx db = (res, db', es)"
    and "UpdateMeetingPhases mid newPhases \<in> set es"
  shows "\<exists>g m db1.
           map_of (RetroReflectionGroup db) reflectionGroupId = Some g
           \<and> mid = group_meetingId g
           \<and> map_of (NewMeeting db) mid = Some m
           \<and> db1 = dbAfterVote h isUnvote reflectionGroupId ctx m mid db
           \<and> RetroReflectionGroup db' = RetroReflectionGroup db1
           \<and> MeetingMemberTable db' = MeetingMemberTable db1
           \<and> map fst (NewMeeting db') = map fst (NewMeeting db1)
           \<and> (\<forall>k. map_of (NewMeeting db') k =
                    map_option (\<lambda>m1. if k = mid then m1\<lparr>phases := newPhases\<rparr> else m1)
                      (map_of (NewMeeting db1) k))
           \<and> (\<forall>k m'. map_of (NewMeeting db') k = Some m' \<longrightarrow>
                 (\<exists>m1. map_of (NewMeeting db1) k = Some m1
                    \<and> endedAt m' = endedAt m1
                    \<and> maxVotesPerGroup m' = maxVotesPerGroup m1
                    \<and> teamId m' = teamId m1
                    \<and> rest m' = rest m1
                    \<and> phases m' = (if k = mid then newPhases else phases m1)))"
proof -
  from assms(2) have "list_ex isWrite es"
    by (auto simp: list_ex_iff intro: bexI [of _ "UpdateMeetingPhases mid newPhases"])
  with resolve_reaches_resolution [OF assms(1)] obtain g m es' where
    g: "map_of (RetroReflectionGroup db) reflectionGroupId = Some g" and
    m: "map_of (NewMeeting db) (group_meetingId g) = Some m" and
    r: "resolution h isUnvote reflectionGroupId ctx (getUserId h (authToken ctx))
          (group_meetingId g) m db = (res, db', es')" and
    es: "es = [GetUserId, GetReflectionGroup reflectionGroupId, GetMeeting (group_meetingId g),
               IsTeamMember (teamId m),
               GetMeetingMember (group_meetingId g) (getUserId h (authToken ctx))] @ es'"
    by blast
  from assms(2) es have "UpdateMeetingPhases mid newPhases \<in> set es'"
    by simp
  from resolution_update [OF r this] have
    mid: "mid = group_meetingId g" and
    db': "db' = updatePhases mid newPhases
                  (dbAfterVote h isUnvote reflectionGroupId ctx m mid db)"
    by (simp_all add: dbAfterVote_def)
  let ?db1 = "dbAfterVote h isUnvote reflectionGroupId ctx m mid db"
  have frame: "\<forall>k. map_of (NewMeeting db') k =
                    map_option (\<lambda>m1. if k = mid then m1\<lparr>phases := newPhases\<rparr> else m1)
                      (map_of (NewMeeting ?db1) k)"
    by (simp add: db' map_of_updatePhases)
  have fields: "\<forall>k m'. map_of (NewMeeting db') k = Some m' \<longrightarrow>
                 (\<exists>m1. map_of (NewMeeting ?db1) k = Some m1
                    \<and> endedAt m' = endedAt m1
                    \<and> maxVotesPerGroup m' = maxVotesPerGroup m1
                    \<and> teamId m' = teamId m1
                    \<and> rest m' = rest m1
                    \<and> phases m' = (if k = mid then newPhases else phases m1))"
  proof (intro allI impI)
    fix k m'
    assume a: "map_of (NewMeeting db') k = Some m'"
    with frame obtain m1 where m1: "map_of (NewMeeting ?db1) k = Some m1"
      and m': "m' = (if k = mid then m1\<lparr>phases := newPhases\<rparr> else m1)"
      by (cases "map_of (NewMeeting ?db1) k") auto
    from m' have "endedAt m' = endedAt m1 \<and> maxVotesPerGroup m' = maxVotesPerGroup m1
        \<and> teamId m' = teamId m1 \<and> rest m' = rest m1
        \<and> phases m' = (if k = mid then newPhases else phases m1)"
      by simp
    with m1 show "\<exists>m1. map_of (NewMeeting ?db1) k = Some m1
                    \<and> endedAt m' = endedAt m1
                    \<and> maxVotesPerGroup m' = maxVotesPerGroup m1
                    \<and> teamId m' = teamId m1
                    \<and> rest m' = rest m1
                    \<and> phases m' = (if k = mid then newPhases else phases m1)"
      by blast
  qed
  have tables: "RetroReflectionGroup db' = RetroReflectionGroup ?db1"
    "MeetingMemberTable db' = MeetingMemberTable ?db1"
    "map fst (NewMeeting db') = map fst (NewMeeting ?db1)"
    using updatePhases_other_tables [of mid newPhases ?db1] by (simp_all add: db')
  from g m mid have gm: "map_of (NewMeeting db) mid = Some m" by simp
  show ?thesis
    by (intro exI [of _ g] exI [of _ m] exI [of _ ?db1] conjI refl)
       (rule g mid gm tables frame fields)+
qed

theorem update_writes_only_phases_witness:
  "resolve sampleHelpers False ''g1'' sampleCtx (sampleDb samplePhases []) =
     (Data castData, sampleDb unlockedPhases [''u1''], castTrace)
   \<and> UpdateMeetingPhases ''m1'' unlockedPhases \<in> set castTrace
   \<and> map_of (NewMeeting (sampleDb unlockedPhases [''u1''])) ''m1'' =
       Some ((sampleMeeting samplePhases)\<lparr>phases := unlockedPhases\<rparr>)
   \<and> RetroReflectionGroup (sampleDb unlockedPhases [''u1'']) =
       RetroReflectionGroup (sampleDb samplePhases [''u1''])"
proof -
  have u: "UpdateMeetingPhases ''m1'' unlockedPhases \<in> set castTrace"
    by (simp add: castTrace_def)
  from update_writes_only_phases [OF sample_cast_run u]
  have "RetroReflectionGroup (sampleDb unlockedPhases [''u1'']) =
          RetroReflectionGroup (sampleDb samplePhases [''u1''])
        \<and> map_of (NewMeeting (sampleDb unlockedPhases [''u1''])) ''m1'' =
            map_option (\<lambda>m1. m1\<lparr>phases := unlockedPhases\<rparr>)
              (map_of (NewMeeting (sampleDb samplePhases [''u1''])) ''m1'')"
    by (simp add: sample_defs dbAfterVote_def castOrWithdraw_def)
  then show ?thesis
    using sample_cast_run u by (simp add: sampleDb_def)
qed

section \<open>The number of spotlight columns\<close>

lemma maxColumns_bounds: "1 \<le> maxColumns cw w \<and> maxColumns cw w \<le> 3"
  by (simp add: maxColumns_def Let_def)

lemma columnsCount_bounds: "1 \<le> columnsCount cw w n \<and> columnsCount cw w n \<le> 3"
  using maxColumns_bounds [of cw w] by (auto simp: columnsCount_def Let_def)

text \<open>
  Claim C9. Whenever \<^verbatim>\<open>useSpotlightColumns\<close> computes a layout from a positive width and
  a group count, the layout is the list of the column indices from zero, of at least one
  and at most three columns. For a group count of at most two it is the single column
  \<open>[0]\<close>. For a larger group count the number of columns is \<open>maxColumns\<close> or one less,
  and it is one less only when the groups per column are fewer than two and \<open>maxColumns\<close>
  is more than one.
\<close>

theorem spotlight_columns_bounds:
  assumes "0 < width"
  shows "\<exists>cols. columns (getColumns cw (Some width) n st) = Some cols
           \<and> 1 \<le> length cols \<and> length cols \<le> 3 \<and> cols = [0..<length cols]
           \<and> (n \<le> 2 \<longrightarrow> cols = [0])
           \<and> (2 < n \<longrightarrow>
                (length cols = maxColumns cw width \<or> length cols = maxColumns cw width - 1)
                \<and> (length cols \<noteq> maxColumns cw width \<longrightarrow>
                     groupsPerColumn n (maxColumns cw width) < 2 \<and> 1 < maxColumns cw width))"
proof (cases "n \<le> 2")
  case True
  with assms show ?thesis by (simp add: getColumns_def)
next
  case False
  have b: "1 \<le> columnsCount cw width n \<and> columnsCount cw width n \<le> 3"
    by (rule columnsCount_bounds)
  have m: "1 \<le> maxColumns cw width" using maxColumns_bounds [of cw width] by simp
  from False assms b m show ?thesis
    by (auto simp: getColumns_def Let_def columnsCount_def)
qed

theorem spotlight_columns_bounds_witness:
  "columns (getColumns 336 (Some 1200) 3 \<lparr>columns = None, viewer = None\<rparr>) = Some [0, 1]
   \<and> maxColumns 336 1200 = 3 \<and> groupsPerColumn 3 3 = 1"
  using spotlight_columns_bounds [of 1200 336 3 "\<lparr>columns = None, viewer = None\<rparr>"]
  by (simp add: getColumns_def columnsCount_def maxColumns_def groupsPerColumn_def Let_def upt_conv_Cons)

section \<open>The Slack toggle\<close>

lemma find_first_intro:
  "(\<forall>y\<in>set pre. \<not> P y) \<Longrightarrow> P x \<Longrightarrow> List.find P (pre @ x # post) = Some x"
  by (induction pre) simp_all

lemma find_first_elim:
  "List.find P xs = Some x \<Longrightarrow>
     \<exists>pre post. xs = pre @ x # post \<and> (\<forall>y\<in>set pre. \<not> P y) \<and> P x"
proof (induction xs)
  case Nil
  then show ?case by simp
next
  case (Cons a xs)
  show ?case
  proof (cases "P a")
    case True
    with Cons.prems have "a = x" by simp
    with True have "a # xs = [] @ x # xs \<and> (\<forall>y\<in>set []. \<not> P y) \<and> P x" by simp
    then show ?thesis by blast
  next
    case False
    with Cons.prems have "List.find P xs = Some x" by simp
    from Cons.IH [OF this] obtain pre post where
      h: "xs = pre @ x # post" "\<forall>y\<in>set pre. \<not> P y" "P x" by blast
    with False have "a # xs = (a # pre) @ x # post \<and> (\<forall>y\<in>set (a # pre). \<not> P y) \<and> P x"
      by simp
    then show ?thesis by blast
  qed
qed

lemma find_Some_first:
  "List.find P xs = Some x \<longleftrightarrow>
     (\<exists>pre post. xs = pre @ x # post \<and> (\<forall>y\<in>set pre. \<not> P y) \<and> P x)"
  using find_first_intro [of _ P x] find_first_elim [of P xs x] by blast

text \<open>
  Claim C10, as amended. The toggle is active if and only if the first of the
  facilitator's Slack notifications whose event is \<^verbatim>\<open>MEETING_STAGE_TIME_LIMIT_START\<close>
  has a channel id that is neither \<^verbatim>\<open>null\<close> nor the empty string. For every click while
  the Slack integration is active and no submission is in flight, the mutation sent carries
  the channel id \<^verbatim>\<open>null\<close> when the toggle was active and the default team channel id
  when it was not.
\<close>

theorem slack_toggle_first_entry:
  "(slackToggleActive f \<longleftrightarrow>
      (\<exists>pre n post. slackNotifications f = pre @ n # post
         \<and> (\<forall>m\<in>set pre. event m \<noteq> ''MEETING_STAGE_TIME_LIMIT_START'')
         \<and> event n = ''MEETING_STAGE_TIME_LIMIT_START''
         \<and> channelId n \<noteq> None \<and> channelId n \<noteq> Some ''''))
   \<and> (\<forall>s. slack (integrations f) = Some s \<and> slack_isActive s \<longrightarrow>
         onClick f False =
           [SubmitMutation,
            SetSlackNotificationMutation
              \<lparr>slackChannelId = (if slackToggleActive f then None else defaultTeamChannelId s),
               slackNotificationEvents = [''MEETING_STAGE_TIME_LIMIT_START''],
               variables_teamId = facilitator_teamId f\<rparr>])"
proof (intro conjI allI impI)
  show "slackToggleActive f \<longleftrightarrow>
      (\<exists>pre n post. slackNotifications f = pre @ n # post
         \<and> (\<forall>m\<in>set pre. event m \<noteq> ''MEETING_STAGE_TIME_LIMIT_START'')
         \<and> event n = ''MEETING_STAGE_TIME_LIMIT_START''
         \<and> channelId n \<noteq> None \<and> channelId n \<noteq> Some '''')"
    (is "?L \<longleftrightarrow> ?R")
  proof
    assume ?L
    then obtain n where n: "timeLimitEvent f = Some n" and t: "truthy (channelId n)"
      by (auto simp: slackToggleActive_def split: option.splits)
    from n obtain pre post where "slackNotifications f = pre @ n # post"
      "\<forall>m\<in>set pre. event m \<noteq> ''MEETING_STAGE_TIME_LIMIT_START''"
      "event n = ''MEETING_STAGE_TIME_LIMIT_START''"
      unfolding timeLimitEvent_def find_Some_first by blast
    moreover from t have "channelId n \<noteq> None \<and> channelId n \<noteq> Some ''''"
      by (auto simp: truthy_def split: option.splits)
    ultimately show ?R by blast
  next
    assume ?R
    then obtain pre n post where h: "slackNotifications f = pre @ n # post"
      "\<forall>m\<in>set pre. event m \<noteq> ''MEETING_STAGE_TIME_LIMIT_START''"
      "event n = ''MEETING_STAGE_TIME_LIMIT_START''"
      and c: "channelId n \<noteq> None" "channelId n \<noteq> Some ''''"
      by blast
    from h have "timeLimitEvent f = Some n"
      unfolding timeLimitEvent_def find_Some_first by blast
    moreover from c have "truthy (channelId n)"
      by (auto simp: truthy_def split: option.splits)
    ultimately show ?L by (simp add: slackToggleActive_def)
  qed
next
  fix s assume "slack (integrations f) = Some s \<and> slack_isActive s"
  then show "onClick f False =
           [SubmitMutation,
            SetSlackNotificationMutation
              \<lparr>slackChannelId = (if slackToggleActive f then None else defaultTeamChannelId s),
               slackNotificationEvents = [''MEETING_STAGE_TIME_LIMIT_START''],
               variables_teamId = facilitator_teamId f\<rparr>]"
    by (simp add: onClick_def)
qed

theorem slack_toggle_first_entry_witness:
  "slackToggleActive (facilitatorWith [timeLimitNotification (Some ''C1'')])
   \<and> onClick (facilitatorWith [timeLimitNotification (Some ''C1'')]) False =
       [SubmitMutation,
        SetSlackNotificationMutation
          \<lparr>slackChannelId = None,
           slackNotificationEvents = [''MEETING_STAGE_TIME_LIMIT_START''],
           variables_teamId = ''team1''\<rparr>]
   \<and> \<not> slackToggleActive (facilitatorWith [])
   \<and> onClick (facilitatorWith []) False =
       [SubmitMutation,
        SetSlackNotificationMutation
          \<lparr>slackChannelId = Some ''C0'',
           slackNotificationEvents = [''MEETING_STAGE_TIME_LIMIT_START''],
           variables_teamId = ''team1''\<rparr>]"
proof -
  have a: "slackToggleActive (facilitatorWith [timeLimitNotification (Some ''C1'')])"
    by (simp add: slackToggleActive_def timeLimitEvent_def slackNotifications_def
          facilitatorWith_def timeLimitNotification_def truthy_def)
  have b: "\<not> slackToggleActive (facilitatorWith [])"
    by (simp add: slackToggleActive_def timeLimitEvent_def slackNotifications_def
          facilitatorWith_def)
  from a slack_toggle_first_entry [of "facilitatorWith [timeLimitNotification (Some ''C1'')]"]
  have c: "onClick (facilitatorWith [timeLimitNotification (Some ''C1'')]) False =
       [SubmitMutation,
        SetSlackNotificationMutation
          \<lparr>slackChannelId = None,
           slackNotificationEvents = [''MEETING_STAGE_TIME_LIMIT_START''],
           variables_teamId = ''team1''\<rparr>]"
    by (simp add: facilitatorWith_def)
  from b slack_toggle_first_entry [of "facilitatorWith []"]
  have d: "onClick (facilitatorWith []) False =
       [SubmitMutation,
        SetSlackNotificationMutation
          \<lparr>slackChannelId = Some ''C0'',
           slackNotificationEvents = [''MEETING_STAGE_TIME_LIMIT_START''],
           variables_teamId = ''team1''\<rparr>]"
    by (simp add: facilitatorWith_def)
  from a b c d show ?thesis by simp
qed

text \<open>
  The claim C10 as the specification words it fails on two facilitators. On the first, an
  entry of the event with a channel id comes after an entry of the event without one: the
  toggle reads the first entry only. On the second, the channel id of the entry is the
  empty string, which is not \<^verbatim>\<open>null\<close> and is falsy.
\<close>

theorem slack_toggle_contains_counterexample:
  "containsTimeLimitChannel
     (facilitatorWith [timeLimitNotification None, timeLimitNotification (Some ''C1'')])
   \<and> \<not> slackToggleActive
       (facilitatorWith [timeLimitNotification None, timeLimitNotification (Some ''C1'')])
   \<and> containsTimeLimitChannel (facilitatorWith [timeLimitNotification (Some '''')])
   \<and> \<not> slackToggleActive (facilitatorWith [timeLimitNotification (Some '''')])"
  by (simp add: containsTimeLimitChannel_def slackToggleActive_def timeLimitEvent_def
        slackNotifications_def facilitatorWith_def timeLimitNotification_def truthy_def)

section \<open>The migration\<close>


lemma up_succeeds:
  assumes "''User'' \<in> set (schema_tables s)"
    and "\<not> hasTrigger s ''update_User_updatedAt'' ''User''"
  shows "up s = Inr (s\<lparr>schema_functions :=
                     (''set_updatedAt'', set_updatedAt)
                       # filter (\<lambda>(k, _). k \<noteq> ''set_updatedAt'') (schema_functions s),
                   schema_triggers :=
                     \<lparr>trigger_name = ''update_User_updatedAt'', trigger_table = ''User'',
                      trigger_procedure = ''set_updatedAt''\<rparr> # schema_triggers s\<rparr>)"
  using assms
  by (simp add: up_def hasFunction_def hasTrigger_def)

lemma down_result:
  assumes "down s1 = Inr s2"
  shows "\<not> hasFunction s2 ''set_updatedAt'' \<and> \<not> hasTrigger s2 ''update_User_updatedAt'' ''User''"
  using assms
  by (auto simp: down_def hasFunction_def hasTrigger_def list_ex_iff split: if_splits)

text \<open>
  Claim C7. The migration is reversible. On a schema that has the table \<^verbatim>\<open>User\<close> and no
  trigger \<^verbatim>\<open>update_User_updatedAt\<close> on it, \<open>up\<close> succeeds, and after it the function
  \<^verbatim>\<open>set_updatedAt\<close> and the trigger both exist; after every \<open>down\<close> that follows and
  succeeds neither exists; and when the schema before the migration had no function
  \<^verbatim>\<open>set_updatedAt\<close> and no trigger that calls it, \<open>down\<close> succeeds and gives back the
  schema before the migration.
\<close>

theorem migration_round_trip:
  assumes "''User'' \<in> set (schema_tables s)"
    and "\<not> hasTrigger s ''update_User_updatedAt'' ''User''"
  shows "\<exists>s1. up s = Inr s1
           \<and> hasFunction s1 ''set_updatedAt''
           \<and> hasTrigger s1 ''update_User_updatedAt'' ''User''
           \<and> (\<forall>s2. down s1 = Inr s2 \<longrightarrow>
                 \<not> hasFunction s2 ''set_updatedAt''
                 \<and> \<not> hasTrigger s2 ''update_User_updatedAt'' ''User'')
           \<and> (\<not> hasFunction s ''set_updatedAt''
               \<and> \<not> list_ex (\<lambda>g. trigger_procedure g = ''set_updatedAt'') (schema_triggers s)
               \<longrightarrow> down s1 = Inr s)"
proof -
  let ?s1 = "s\<lparr>schema_functions :=
                     (''set_updatedAt'', set_updatedAt)
                       # filter (\<lambda>(k, _). k \<noteq> ''set_updatedAt'') (schema_functions s),
                   schema_triggers :=
                     \<lparr>trigger_name = ''update_User_updatedAt'', trigger_table = ''User'',
                      trigger_procedure = ''set_updatedAt''\<rparr> # schema_triggers s\<rparr>"
  have u: "up s = Inr ?s1" by (rule up_succeeds [OF assms])
  have f: "hasFunction ?s1 ''set_updatedAt''" by (simp add: hasFunction_def)
  have t: "hasTrigger ?s1 ''update_User_updatedAt'' ''User''" by (simp add: hasTrigger_def)
  have d: "\<forall>s2. down ?s1 = Inr s2 \<longrightarrow>
                 \<not> hasFunction s2 ''set_updatedAt''
                 \<and> \<not> hasTrigger s2 ''update_User_updatedAt'' ''User''"
    using down_result by blast
  have r: "\<not> hasFunction s ''set_updatedAt''
               \<and> \<not> list_ex (\<lambda>g. trigger_procedure g = ''set_updatedAt'') (schema_triggers s)
               \<longrightarrow> down ?s1 = Inr s"
  proof
    assume a: "\<not> hasFunction s ''set_updatedAt''
               \<and> \<not> list_ex (\<lambda>g. trigger_procedure g = ''set_updatedAt'') (schema_triggers s)"
    have ft: "filter (\<lambda>g. \<not> (trigger_name g = ''update_User_updatedAt'' \<and> trigger_table g = ''User''))
                (schema_triggers s) = schema_triggers s"
      using assms(2) by (auto simp: hasTrigger_def list_ex_iff filter_id_conv)
    have ff: "filter (\<lambda>(k, _). k \<noteq> ''set_updatedAt'') (schema_functions s) = schema_functions s"
      using a by (force simp: hasFunction_def filter_id_conv)
    from a assms ft ff show "down ?s1 = Inr s"
      by (simp add: down_def hasFunction_def hasTrigger_def)
  qed
  from u f t d r show ?thesis by blast
qed

theorem migration_round_trip_witness:
  "''User'' \<in> set (schema_tables sampleSchema)
   \<and> up sampleSchema = Inr migratedSchema
   \<and> hasFunction migratedSchema ''set_updatedAt''
   \<and> hasTrigger migratedSchema ''update_User_updatedAt'' ''User''
   \<and> down migratedSchema = Inr sampleSchema"
proof -
  have a: "''User'' \<in> set (schema_tables sampleSchema)" by (simp add: sampleSchema_def)
  have b: "\<not> hasTrigger sampleSchema ''update_User_updatedAt'' ''User''"
    by (simp add: sampleSchema_def hasTrigger_def)
  have u: "up sampleSchema = Inr migratedSchema"
    by (simp add: up_def sampleSchema_def migratedSchema_def hasFunction_def hasTrigger_def)
  have c: "\<not> hasFunction sampleSchema ''set_updatedAt''
           \<and> \<not> list_ex (\<lambda>g. trigger_procedure g = ''set_updatedAt'') (schema_triggers sampleSchema)"
    by (simp add: sampleSchema_def hasFunction_def)
  from migration_round_trip [OF a b] u c show ?thesis
    using a by auto
qed









end
